theory Spec2Isabelle
  imports Main
begin

section \<open>Source mappings of Solidity contracts (mythril/solidity/soliditycontract.py)\<close>

text \<open>
  A shallow embedding of the source-map decoder, the per-file registry and the
  instruction resolver of \<^verbatim>\<open>SolidityContract\<close>.

  Conventions of the embedding:
  \<^item> A Python \<^verbatim>\<open>str\<close> is represented by its UTF-8 encoding, a \<open>char list\<close> of bytes.
    Hence \<^verbatim>\<open>s.encode("utf-8")\<close> is the identity on the representation, and
    \<^verbatim>\<open>b.decode("utf-8", errors="ignore")\<close> keeps the well-formed byte sequences of \<open>b\<close>.
  \<^item> Python integers are \<open>int\<close>; a local variable that may still be unbound is an
    \<open>int option\<close>.
  \<^item> Every exception the code can raise is a value of \<open>error\<close>.
\<close>

subsection \<open>Exceptions\<close>

datatype error =
    ValueError
  | UnboundLocalError
  | IndexError
  | KeyError
  | InstructionNotFoundError

subsection \<open>Python built-ins used by the module\<close>

text \<open>\<^verbatim>\<open>xs[i]\<close> on a list: a negative index counts from the end, anything out of range raises.\<close>

definition py_index :: "'a list \<Rightarrow> int \<Rightarrow> error + 'a" where
  "py_index xs i =
     (if 0 \<le> i \<and> i < int (length xs) then Inr (xs ! nat i)
      else if i < 0 \<and> - int (length xs) \<le> i then Inr (xs ! nat (int (length xs) + i))
      else Inl IndexError)"

text \<open>\<^verbatim>\<open>xs[start:stop]\<close>: both bounds are clamped, a negative bound counts from the end.\<close>

definition slice_bound :: "nat \<Rightarrow> int \<Rightarrow> nat" where
  "slice_bound n i = (if i < 0 then nat (max 0 (i + int n)) else min (nat i) n)"

definition py_slice :: "'a list \<Rightarrow> int \<Rightarrow> int \<Rightarrow> 'a list" where
  "py_slice xs start stop =
     (let a = slice_bound (length xs) start; b = slice_bound (length xs) stop
      in take (b - a) (drop a xs))"

text \<open>
  \<^verbatim>\<open>s.split(sep)\<close> for a one-character separator: always at least one part. A
  character is put in front of the parts of the rest of the string: the separator opens a
  new part, any other character extends the first part.
\<close>

fun push_char :: "char \<Rightarrow> char \<Rightarrow> string list \<Rightarrow> string list" where
  "push_char sep c (p # ps) = (if c = sep then [] # p # ps else (c # p) # ps)"
| "push_char sep c [] = (if c = sep then [[], []] else [[c]])"

fun split_py :: "char \<Rightarrow> string \<Rightarrow> string list" where
  "split_py sep [] = [[]]"
| "split_py sep (c # cs) = push_char sep c (split_py sep cs)"

text \<open>
  \<^verbatim>\<open>int(s)\<close> in base 10, on ASCII text: surrounding whitespace is stripped, one sign is
  allowed, and the digits may be grouped by single underscores. (Digits outside ASCII and
  the interpreter's limit on the length of the numeral are not modelled.)
\<close>

definition is_space :: "char \<Rightarrow> bool" where
  "is_space c = (c \<in> set [CHR 0x09, CHR 0x0A, CHR 0x0B, CHR 0x0C, CHR 0x0D,
                            CHR 0x1C, CHR 0x1D, CHR 0x1E, CHR 0x1F, CHR 0x20])"

definition is_digit :: "char \<Rightarrow> bool" where
  "is_digit c = (c \<in> set ''0123456789'')"

definition digit_val :: "char \<Rightarrow> int" where
  "digit_val c = int (of_char c) - 48"

definition strip :: "string \<Rightarrow> string" where
  "strip s = rev (dropWhile is_space (rev (dropWhile is_space s)))"

fun grouped :: "string \<Rightarrow> bool" where
  "grouped [] = True"
| "grouped [c] = is_digit c"
| "grouped (c # d # s) =
     ((is_digit c \<or> (c = CHR ''_'' \<and> is_digit d)) \<and> grouped (d # s))"

definition digits_ok :: "string \<Rightarrow> bool" where
  "digits_ok s = (s \<noteq> [] \<and> is_digit (hd s) \<and> grouped s)"

definition digits_value :: "string \<Rightarrow> int" where
  "digits_value s = foldl (\<lambda>a c. 10 * a + digit_val c) 0 (filter is_digit s)"

definition unsigned_int :: "string \<Rightarrow> int option" where
  "unsigned_int s = (if digits_ok s then Some (digits_value s) else None)"

definition py_int :: "string \<Rightarrow> int option" where
  "py_int s =
     (case strip s of
        [] \<Rightarrow> None
      | c # r \<Rightarrow>
          if c = CHR ''-'' then map_option uminus (unsigned_int r)
          else if c = CHR ''+'' then unsigned_int r
          else unsigned_int (c # r))"

text \<open>\<^verbatim>\<open>str(i)\<close> and \<^verbatim>\<open>"{}:{}:{}".format(a, b, c)\<close> on integers.\<close>

fun nat_digits :: "nat \<Rightarrow> string" where
  "nat_digits n =
     (if n < 10 then [''0123456789'' ! n]
      else nat_digits (n div 10) @ [''0123456789'' ! (n mod 10)])"

declare nat_digits.simps [simp del]

definition py_str :: "int \<Rightarrow> string" where
  "py_str i = (if i < 0 then CHR ''-'' # nat_digits (nat (- i)) else nat_digits (nat i))"

definition format3 :: "int \<Rightarrow> int \<Rightarrow> int \<Rightarrow> string" where
  "format3 a b c = py_str a @ '':'' @ py_str b @ '':'' @ py_str c"

text \<open>
  \<^verbatim>\<open>b.decode("utf-8", errors="ignore")\<close>: \<open>utf8_seq_len\<close> is the length of the well-formed
  UTF-8 sequence at the head of the bytes (0 when there is none); a byte that starts no
  well-formed sequence is dropped.
\<close>

definition byte_in :: "nat \<Rightarrow> nat \<Rightarrow> char \<Rightarrow> bool" where
  "byte_in lo hi c = (lo \<le> of_char c \<and> (of_char c :: nat) \<le> hi)"

definition utf8_seq_len :: "char list \<Rightarrow> nat" where
  "utf8_seq_len bs =
     (case bs of
        [] \<Rightarrow> 0
      | b # r \<Rightarrow>
          if byte_in 0x00 0x7F b then 1
          else if byte_in 0xC2 0xDF b then
            (case r of c1 # _ \<Rightarrow> if byte_in 0x80 0xBF c1 then 2 else 0 | _ \<Rightarrow> 0)
          else if byte_in 0xE0 0xEF b then
            (case r of
               c1 # c2 # _ \<Rightarrow>
                 if byte_in (if b = CHR 0xE0 then 0xA0 else 0x80)
                            (if b = CHR 0xED then 0x9F else 0xBF) c1
                    \<and> byte_in 0x80 0xBF c2
                 then 3 else 0
             | _ \<Rightarrow> 0)
          else if byte_in 0xF0 0xF4 b then
            (case r of
               c1 # c2 # c3 # _ \<Rightarrow>
                 if byte_in (if b = CHR 0xF0 then 0x90 else 0x80)
                            (if b = CHR 0xF4 then 0x8F else 0xBF) c1
                    \<and> byte_in 0x80 0xBF c2 \<and> byte_in 0x80 0xBF c3
                 then 4 else 0
             | _ \<Rightarrow> 0)
          else 0)"

function utf8_decode_ignore :: "char list \<Rightarrow> string" where
  "utf8_decode_ignore [] = []"
| "utf8_decode_ignore (b # bs) =
     (let n = utf8_seq_len (b # bs)
      in if n = 0 then utf8_decode_ignore bs
         else take n (b # bs) @ utf8_decode_ignore (drop n (b # bs)))"
  by pat_completeness auto
termination
  by (relation "measure length") auto

subsection \<open>The classes of the module\<close>

text \<open>
  \<^verbatim>\<open>SourceMapping\<close>, \<^verbatim>\<open>SolidityFile\<close> and \<^verbatim>\<open>SourceCodeInfo\<close>. Field names that two classes
  share, or that clash with a list function, carry a suffix (\<open>_m\<close> for a mapping, \<open>_i\<close>
  for a code info).
\<close>

record SourceMapping =
  solidity_file_idx :: int
  offset :: int
  length_m :: int
  lineno :: "int option"
  solc_mapping :: string

record SolidityFile =
  filename :: string
  data :: string
  full_contract_source :: "string set"

record SourceCodeInfo =
  filename_i :: string
  lineno_i :: "int option"
  code :: string
  solc_mapping_i :: string

text \<open>
  Modelled from the spec: the disassembly and \<^verbatim>\<open>helper.get_instruction_index\<close> live in
  modules outside this file. A disassembly holds an instruction list ordered by program
  counter; the lookup gives the position of the instruction that starts at the address
  and fails with \<open>InstructionNotFoundError\<close> when no instruction starts there.
\<close>

record Instruction =
  address :: int
  opcode :: string

record Disassembly =
  instruction_list :: "Instruction list"

fun get_instruction_index :: "Instruction list \<Rightarrow> int \<Rightarrow> error + nat" where
  "get_instruction_index [] a = Inl InstructionNotFoundError"
| "get_instruction_index (instr # rest) a =
     (if address instr = a then Inr 0
      else (case get_instruction_index rest a of
              Inl e \<Rightarrow> Inl e
            | Inr k \<Rightarrow> Inr (Suc k)))"

text \<open>The attributes of a \<^verbatim>\<open>SolidityContract\<close> that this module reads and writes.\<close>

record SolidityContract =
  solidity_files :: "SolidityFile list"
  mappings :: "SourceMapping list"
  constructor_mappings :: "SourceMapping list"
  disassembly :: Disassembly
  creation_disassembly :: Disassembly

subsection \<open>\<^verbatim>\<open>get_full_contract_sources\<close>\<close>

text \<open>
  The AST is the compiler's JSON. A node is a dictionary; the embedding keeps the keys the
  function reads, \<open>None\<close> standing for a key the dictionary does not have: of
  \<^verbatim>\<open>"attributes"\<close> (a dictionary) its keys, of \<^verbatim>\<open>"src"\<close> its string, of \<^verbatim>\<open>"children"\<close> the
  list of nodes. The values have the types the compiler gives them. Subscripting a
  dictionary with a key it lacks raises \<open>KeyError\<close>.
\<close>

record AstNode =
  attributes :: "string list option"
  src :: "string option"

record Ast =
  children :: "AstNode list option"

fun collect_sources :: "string set \<Rightarrow> AstNode list \<Rightarrow> error + string set" where
  "collect_sources source_map [] = Inr source_map"
| "collect_sources source_map (child # rest) =
     (case attributes child of
        None \<Rightarrow> Inl KeyError
      | Some attrs \<Rightarrow>
          if ''contractKind'' \<in> set attrs then
            (case src child of
               None \<Rightarrow> Inl KeyError
             | Some s \<Rightarrow> collect_sources (insert s source_map) rest)
          else collect_sources source_map rest)"

definition get_full_contract_sources :: "Ast \<Rightarrow> error + string set" where
  "get_full_contract_sources ast =
     (case children ast of
        None \<Rightarrow> Inl KeyError
      | Some cs \<Rightarrow> collect_sources {} cs)"

subsection \<open>\<^verbatim>\<open>_is_autogenerated_code\<close>\<close>

definition is_autogenerated_code :: "SolidityContract \<Rightarrow> int \<Rightarrow> int \<Rightarrow> int \<Rightarrow> error + bool" where
  "is_autogenerated_code self offset' length' file_index =
     (if file_index = - 1 then Inr True
      else (case py_index (solidity_files self) file_index of
              Inl e \<Rightarrow> Inl e
            | Inr f \<Rightarrow>
                if format3 offset' length' file_index \<in> full_contract_source f
                then Inr True
                else Inr False))"

subsection \<open>\<^verbatim>\<open>_get_solc_mappings\<close>\<close>

text \<open>
  The local variables that live across the iterations of the loop. \<open>offset\<close>, \<open>length\<close>
  and \<open>idx\<close> are unbound until a token assigns them.
\<close>

record locals =
  prev_item :: string
  offset_var :: "int option"
  length_var :: "int option"
  idx_var :: "int option"

definition start :: locals where
  "start = \<lparr>prev_item = [], offset_var = None, length_var = None, idx_var = None\<rparr>"

text \<open>
  One of the three statements
  \<^verbatim>\<open>if len(mapping) > k and len(mapping[k]) > 0: var = int(mapping[k])\<close>,
  with its guard: position \<open>k\<close> of the split token is there and is not empty.
\<close>

definition present :: "string list \<Rightarrow> nat \<Rightarrow> bool" where
  "present mapping k = (length mapping > k \<and> length (mapping ! k) > 0)"

definition assign_field :: "string list \<Rightarrow> nat \<Rightarrow> int option \<Rightarrow> error + int option" where
  "assign_field mapping k var =
     (if present mapping k then
        (case py_int (mapping ! k) of
           None \<Rightarrow> Inl ValueError
         | Some v \<Rightarrow> Inr (Some v))
      else Inr var)"

text \<open>
  The first half of the loop body: the token after the substitution of an empty one, and
  \<open>offset\<close>, \<open>length\<close> and \<open>idx\<close> after the three assignments.
\<close>

definition read_token ::
    "locals \<Rightarrow> string \<Rightarrow> error + string \<times> int option \<times> int option \<times> int option" where
  "read_token v item0 =
     (let item = (if item0 = [] then prev_item v else item0);
          mapping = split_py CHR '':'' item
      in case assign_field mapping 0 (offset_var v) of
           Inl e \<Rightarrow> Inl e
         | Inr off \<Rightarrow>
        (case assign_field mapping 1 (length_var v) of
           Inl e \<Rightarrow> Inl e
         | Inr len \<Rightarrow>
        (case assign_field mapping 2 (idx_var v) of
           Inl e \<Rightarrow> Inl e
         | Inr ix \<Rightarrow> Inr (item, off, len, ix))))"

text \<open>
  \<^verbatim>\<open>self.solidity_files[idx].data.encode("utf-8")[0:offset].count("\n".encode("utf-8")) + 1\<close>
\<close>

definition count_lines :: "SolidityContract \<Rightarrow> int \<Rightarrow> int \<Rightarrow> error + int" where
  "count_lines self idx offset' =
     (case py_index (solidity_files self) idx of
        Inl e \<Rightarrow> Inl e
      | Inr f \<Rightarrow> Inr (int (count_list (py_slice (data f) 0 offset') CHR 0x0A) + 1))"

text \<open>
  The line number of the mapping: \<open>None\<close> for autogenerated code, else one more than the
  number of newline bytes before the offset.
\<close>

definition resolve_lineno :: "SolidityContract \<Rightarrow> int \<Rightarrow> int \<Rightarrow> int \<Rightarrow> error + int option" where
  "resolve_lineno self offset' length' idx =
     (case is_autogenerated_code self offset' length' idx of
        Inl e \<Rightarrow> Inl e
      | Inr autogenerated \<Rightarrow>
          if autogenerated then Inr None
          else (case count_lines self idx offset' of
                  Inl e \<Rightarrow> Inl e
                | Inr n \<Rightarrow> Inr (Some n)))"

text \<open>
  The body of the loop for one token: the locals after it and the mapping it appends, or
  the exception it raises. Reading an unbound local raises \<open>UnboundLocalError\<close>.
\<close>

definition loop_body :: "SolidityContract \<Rightarrow> locals \<Rightarrow> string \<Rightarrow> error + locals \<times> SourceMapping" where
  "loop_body self v item0 =
     (case read_token v item0 of
        Inl e \<Rightarrow> Inl e
      | Inr (item, Some offset', Some length', Some idx) \<Rightarrow>
          (case resolve_lineno self offset' length' idx of
             Inl e \<Rightarrow> Inl e
           | Inr lineno' \<Rightarrow>
               Inr (\<lparr>prev_item = item, offset_var = Some offset',
                      length_var = Some length', idx_var = Some idx\<rparr>,
                    \<lparr>solidity_file_idx = idx, offset = offset', length_m = length',
                      lineno = lineno', solc_mapping = item\<rparr>))
      | Inr _ \<Rightarrow> Inl UnboundLocalError)"

text \<open>
  The loop over the tokens: the mappings appended, in order, and the exception that ended
  the loop, if any. The mappings appended before an exception stay appended.
\<close>

fun mappings_loop :: "SolidityContract \<Rightarrow> locals \<Rightarrow> string list \<Rightarrow> SourceMapping list \<times> error option" where
  "mappings_loop self v [] = ([], None)"
| "mappings_loop self v (item # rest) =
     (case loop_body self v item of
        Inl e \<Rightarrow> ([], Some e)
      | Inr (v', m) \<Rightarrow>
          (case mappings_loop self v' rest of (ms, exc) \<Rightarrow> (m # ms, exc)))"

text \<open>The method: the object as the call leaves it, and the exception raised, if any.\<close>

definition get_solc_mappings ::
    "SolidityContract \<Rightarrow> string list \<Rightarrow> bool \<Rightarrow> SolidityContract \<times> error option" where
  "get_solc_mappings self srcmap constructor =
     (case mappings_loop self start srcmap of
        (ms, exc) \<Rightarrow>
          (if constructor
           then self\<lparr>constructor_mappings := constructor_mappings self @ ms\<rparr>
           else self\<lparr>mappings := mappings self @ ms\<rparr>,
           exc))"

text \<open>
  The entries decoded from a raw map: \<^verbatim>\<open>__init__\<close> splits the compiler's string on \<^verbatim>\<open>";"\<close>
  and hands the tokens to the loop.
\<close>

definition decode :: "SolidityContract \<Rightarrow> string \<Rightarrow> SourceMapping list \<times> error option" where
  "decode self raw = mappings_loop self start (split_py CHR '';'' raw)"

text \<open>
  The end of \<^verbatim>\<open>__init__\<close>: both sequences start empty, the runtime map is decoded, then
  the constructor map.
\<close>

definition init_mappings ::
    "SolidityContract \<Rightarrow> string \<Rightarrow> string \<Rightarrow> SolidityContract \<times> error option" where
  "init_mappings self srcmap_runtime srcmap_creation =
     (let srcmap = split_py CHR '';'' srcmap_runtime;
          srcmap_constructor = split_py CHR '';'' srcmap_creation;
          self0 = self\<lparr>mappings := [], constructor_mappings := []\<rparr>
      in case get_solc_mappings self0 srcmap False of
           (self1, Some e) \<Rightarrow> (self1, Some e)
         | (self1, None) \<Rightarrow> get_solc_mappings self1 srcmap_constructor True)"

subsection \<open>\<^verbatim>\<open>get_source_info\<close>\<close>

definition get_source_info :: "SolidityContract \<Rightarrow> int \<Rightarrow> bool \<Rightarrow> error + SourceCodeInfo" where
  "get_source_info self address' constructor =
     (let disassembly' = (if constructor then creation_disassembly self else disassembly self);
          mappings' = (if constructor then constructor_mappings self else mappings self)
      in case get_instruction_index (instruction_list disassembly') address' of
           Inl e \<Rightarrow> Inl e
         | Inr index \<Rightarrow>
        (case py_index mappings' (int index) of
           Inl e \<Rightarrow> Inl e
         | Inr m \<Rightarrow>
        (case py_index (solidity_files self) (solidity_file_idx m) of
           Inl e \<Rightarrow> Inl e
         | Inr solidity_file \<Rightarrow>
             Inr \<lparr>filename_i = filename solidity_file,
                  lineno_i = lineno m,
                  code = utf8_decode_ignore
                           (py_slice (data solidity_file) (offset m) (offset m + length_m m)),
                  solc_mapping_i = solc_mapping m\<rparr>)))"

subsection \<open>Notions used to state the properties\<close>

text \<open>The locals right after the iteration that appended the mapping \<open>m\<close>.\<close>

definition locals_of :: "SourceMapping \<Rightarrow> locals" where
  "locals_of m = \<lparr>prev_item = solc_mapping m, offset_var = Some (offset m),
                  length_var = Some (length_m m), idx_var = Some (solidity_file_idx m)\<rparr>"

text \<open>The locals before iteration \<open>i\<close> of a loop that started with \<open>v\<close> and appended \<open>ms\<close>.\<close>

definition locals_at :: "locals \<Rightarrow> SourceMapping list \<Rightarrow> nat \<Rightarrow> locals" where
  "locals_at v ms i = (if i = 0 then v else locals_of (ms ! (i - 1)))"

text \<open>The three decoded fields of a mapping, together and by position.\<close>

definition triple :: "SourceMapping \<Rightarrow> int \<times> int \<times> int" where
  "triple m = (offset m, length_m m, solidity_file_idx m)"

definition field :: "nat \<Rightarrow> SourceMapping \<Rightarrow> int" where
  "field k m = [offset m, length_m m, solidity_file_idx m] ! k"

text \<open>
  The tokens with every empty one replaced by the nearest non-empty token before it
  (\<open>p\<close> is the one before the list; a leading empty token stays empty).
\<close>

fun inherit_tokens :: "string \<Rightarrow> string list \<Rightarrow> string list" where
  "inherit_tokens p [] = []"
| "inherit_tokens p (t # ts) =
     (if t = [] then p # inherit_tokens p ts else t # inherit_tokens t ts)"

text \<open>
  Parsing each token independently of the others, as the specification words it: every
  token is read by the loop body with no predecessor, that is from the initial locals.
\<close>

fun independent_loop :: "SolidityContract \<Rightarrow> string list \<Rightarrow> SourceMapping list \<times> error option" where
  "independent_loop self [] = ([], None)"
| "independent_loop self (item # rest) =
     (case loop_body self start item of
        Inl e \<Rightarrow> ([], Some e)
      | Inr (v', m) \<Rightarrow>
          (case independent_loop self rest of (ms, exc) \<Rightarrow> (m # ms, exc)))"

text \<open>A token that gives all of its first three fields.\<close>

definition complete :: "string \<Rightarrow> bool" where
  "complete t =
     (present (split_py CHR '':'' t) 0 \<and> present (split_py CHR '':'' t) 1 \<and>
      present (split_py CHR '':'' t) 2)"

text \<open>
  The specification's \<open>DecodeError\<close> (a leading token with undefined fields, or a field
  that is no integer) is what Python raises in these two cases.
\<close>

definition DecodeError :: "error set" where
  "DecodeError = {ValueError, UnboundLocalError}"

text \<open>
  Declarations of an AST: one that carries the kind marker, one that has the structure
  the extraction reads, and the ranges of the marked declarations of a list.
\<close>

definition marked :: "AstNode \<Rightarrow> bool" where
  "marked child =
     (case attributes child of None \<Rightarrow> False | Some attrs \<Rightarrow> ''contractKind'' \<in> set attrs)"

definition well_formed :: "AstNode \<Rightarrow> bool" where
  "well_formed child = (attributes child \<noteq> None \<and> (marked child \<longrightarrow> src child \<noteq> None))"

definition marked_sources :: "AstNode list \<Rightarrow> string set" where
  "marked_sources cs = {s. \<exists>child \<in> set cs. marked child \<and> src child = Some s}"

subsection \<open>Example inputs\<close>

definition file_a :: SolidityFile where
  "file_a = \<lparr>filename = ''a.sol'',
             data = ''ab'' @ [CHR 0x0A] @ ''cd'' @ [CHR 0x0A] @ ''efghijklmnopqrstuvwxyz'',
             full_contract_source = {''20:3:0''}\<rparr>"

definition file_b :: SolidityFile where
  "file_b = \<lparr>filename = ''b.sol'', data = ''xy'', full_contract_source = {}\<rparr>"

definition example_contract :: SolidityContract where
  "example_contract =
     \<lparr>solidity_files = [file_a, file_b],
      mappings = [\<lparr>solidity_file_idx = - 1, offset = 0, length_m = 2, lineno = None,
                   solc_mapping = ''0:2:-1''\<rparr>],
      constructor_mappings = [],
      disassembly = \<lparr>instruction_list = [\<lparr>address = 0, opcode = ''STOP''\<rparr>]\<rparr>,
      creation_disassembly = \<lparr>instruction_list = []\<rparr>\<rparr>"

definition example_ast :: Ast where
  "example_ast =
     \<lparr>children = Some
        [\<lparr>attributes = Some [''name'', ''contractKind''], src = Some ''0:5:0''\<rparr>,
         \<lparr>attributes = None, src = Some ''7:9:0''\<rparr>]\<rparr>"

definition sound_ast :: Ast where
  "sound_ast =
     \<lparr>children = Some
        [\<lparr>attributes = Some [''name'', ''contractKind''], src = Some ''0:5:0''\<rparr>,
         \<lparr>attributes = Some [''name''], src = None\<rparr>]\<rparr>"

section \<open>Properties\<close>

subsection \<open>Facts about the loop\<close>

lemma loop_body_InrD:
  assumes "loop_body self v tok = Inr (v', m)"
  shows "read_token v tok =
           Inr (solc_mapping m, Some (offset m), Some (length_m m), Some (solidity_file_idx m))"
    and "v' = locals_of m"
    and "resolve_lineno self (offset m) (length_m m) (solidity_file_idx m) = Inr (lineno m)"
proof -
  obtain r where r: "read_token v tok = Inr r"
    using assms by (cases "read_token v tok") (simp_all add: loop_body_def)
  obtain item a b c where rr: "r = (item, a, b, c)"
    by (cases r) auto
  have "\<exists>a' b' c'. a = Some a' \<and> b = Some b' \<and> c = Some c'"
    using assms r rr by (cases a; cases b; cases c) (simp_all add: loop_body_def)
  then obtain a' b' c' where abc: "a = Some a'" "b = Some b'" "c = Some c'"
    by blast
  obtain ln where ln: "resolve_lineno self a' b' c' = Inr ln"
    using assms r rr abc
    by (cases "resolve_lineno self a' b' c'") (simp_all add: loop_body_def)
  from assms r rr abc ln
  have m: "m = \<lparr>solidity_file_idx = c', offset = a', length_m = b', lineno = ln,
                 solc_mapping = item\<rparr>"
    and v': "v' = \<lparr>prev_item = item, offset_var = Some a', length_var = Some b',
                   idx_var = Some c'\<rparr>"
    by (simp_all add: loop_body_def)
  from m r rr abc show "read_token v tok =
      Inr (solc_mapping m, Some (offset m), Some (length_m m), Some (solidity_file_idx m))"
    by simp
  from m v' show "v' = locals_of m"
    by (simp add: locals_of_def)
  from m ln show "resolve_lineno self (offset m) (length_m m) (solidity_file_idx m) = Inr (lineno m)"
    by simp
qed

lemma loop_body_InrI:
  assumes "read_token v tok = Inr (item, Some a, Some b, Some c)"
    and "resolve_lineno self a b c = Inr ln"
  shows "loop_body self v tok =
           Inr (locals_of \<lparr>solidity_file_idx = c, offset = a, length_m = b, lineno = ln,
                            solc_mapping = item\<rparr>,
                \<lparr>solidity_file_idx = c, offset = a, length_m = b, lineno = ln,
                  solc_mapping = item\<rparr>)"
  using assms by (simp add: loop_body_def locals_of_def)

lemma loop_body_read:
  "read_token v tok = read_token v' tok' \<Longrightarrow> loop_body self v tok = loop_body self v' tok'"
  by (simp add: loop_body_def)

text \<open>Every mapping a loop appended is the result of the body at its position.\<close>

lemma loop_nth:
  "mappings_loop self v toks = (ms, exc) \<Longrightarrow> i < length ms \<Longrightarrow>
     i < length toks \<and>
     loop_body self (locals_at v ms i) (toks ! i) = Inr (locals_of (ms ! i), ms ! i)"
proof (induction toks arbitrary: v ms exc i)
  case Nil
  then show ?case by simp
next
  case (Cons tok toks)
  show ?case
  proof (cases "loop_body self v tok")
    case (Inl e)
    with Cons.prems show ?thesis by simp
  next
    case (Inr p)
    obtain v' m where p: "p = (v', m)" by (cases p)
    obtain ms' exc' where r: "mappings_loop self v' toks = (ms', exc')"
      by (cases "mappings_loop self v' toks")
    from Cons.prems Inr p r have ms: "ms = m # ms'" and "exc = exc'" by auto
    from loop_body_InrD(2) [of self v tok v' m] Inr p have v': "v' = locals_of m" by simp
    show ?thesis
    proof (cases i)
      case 0
      with Inr p ms v' show ?thesis by (simp add: locals_at_def)
    next
      case (Suc j)
      with Cons.prems ms have "j < length ms'" by simp
      from Cons.IH [OF r this] have "j < length toks"
        and "loop_body self (locals_at v' ms' j) (toks ! j) = Inr (locals_of (ms' ! j), ms' ! j)"
        by simp_all
      moreover have "locals_at v' ms' j = locals_at v ms (Suc j)"
        using v' ms by (cases j) (simp_all add: locals_at_def)
      ultimately show ?thesis using Suc ms by simp
    qed
  qed
qed

text \<open>A loop ends without exception after the last token, or with the body's exception.\<close>

lemma loop_exc:
  "mappings_loop self v toks = (ms, exc) \<Longrightarrow>
     length ms \<le> length toks \<and>
     (case exc of
        None \<Rightarrow> length ms = length toks
      | Some e \<Rightarrow> length ms < length toks \<and>
                  loop_body self (locals_at v ms (length ms)) (toks ! length ms) = Inl e)"
proof (induction toks arbitrary: v ms exc)
  case Nil
  then show ?case by auto
next
  case (Cons tok toks)
  show ?case
  proof (cases "loop_body self v tok")
    case (Inl e)
    with Cons.prems show ?thesis by (auto simp: locals_at_def)
  next
    case (Inr p)
    obtain v' m where p: "p = (v', m)" by (cases p)
    obtain ms' exc' where r: "mappings_loop self v' toks = (ms', exc')"
      by (cases "mappings_loop self v' toks")
    from Cons.prems Inr p r have ms: "ms = m # ms'" and exc: "exc = exc'" by auto
    from loop_body_InrD(2) [of self v tok v' m] Inr p have v': "v' = locals_of m" by simp
    have "locals_at v' ms' (length ms') = locals_at v ms (length ms)"
      using v' ms by (cases ms') (simp_all add: locals_at_def)
    with Cons.IH [OF r] ms exc show ?thesis
      by (auto split: option.splits)
  qed
qed

lemma assign_field_again:
  "assign_field mp k var = Inr (Some x) \<Longrightarrow> assign_field mp k (Some x) = Inr (Some x)"
  by (auto simp: assign_field_def split: if_splits option.splits)

lemma read_token_InrD:
  assumes "read_token v tok = Inr (item, a, b, c)"
  shows "item = (if tok = [] then prev_item v else tok)"
    and "assign_field (split_py CHR '':'' item) 0 (offset_var v) = Inr a"
    and "assign_field (split_py CHR '':'' item) 1 (length_var v) = Inr b"
    and "assign_field (split_py CHR '':'' item) 2 (idx_var v) = Inr c"
  using assms
  by (auto simp: read_token_def Let_def split: sum.splits if_splits)

lemma read_token_InrI:
  assumes "item = (if tok = [] then prev_item v else tok)"
    and "assign_field (split_py CHR '':'' item) 0 (offset_var v) = Inr a"
    and "assign_field (split_py CHR '':'' item) 1 (length_var v) = Inr b"
    and "assign_field (split_py CHR '':'' item) 2 (idx_var v) = Inr c"
  shows "read_token v tok = Inr (item, a, b, c)"
  using assms
  by (simp add: read_token_def Let_def)

text \<open>Reading an empty token right after a mapping reads that mapping again.\<close>

lemma read_token_replay:
  assumes "read_token v tok =
             Inr (solc_mapping m, Some (offset m), Some (length_m m), Some (solidity_file_idx m))"
  shows "read_token (locals_of m) [] =
           Inr (solc_mapping m, Some (offset m), Some (length_m m), Some (solidity_file_idx m))"
  using read_token_InrD(2-4) [OF assms]
  by (intro read_token_InrI) (simp_all add: locals_of_def assign_field_again)

lemma loop_body_replay:
  assumes "loop_body self v tok = Inr (v', m)"
  shows "loop_body self (locals_of m) [] = Inr (locals_of m, m)"
proof -
  have "read_token (locals_of m) [] = read_token v tok"
    using read_token_replay loop_body_InrD(1) [OF assms] by simp
  from loop_body_read [OF this] assms loop_body_InrD(2) [OF assms] show ?thesis
    by simp
qed

text \<open>Unfolding these definitions evaluates the functions on concrete inputs.\<close>

lemmas ev_read = decode_def start_def read_token_def assign_field_def present_def
  py_int_def strip_def is_space_def unsigned_int_def digits_ok_def is_digit_def
  digits_value_def digit_val_def Let_def

lemmas ev = ev_read loop_body_def resolve_lineno_def is_autogenerated_code_def py_index_def
  format3_def py_str_def nat_digits.simps count_lines_def py_slice_def slice_bound_def

lemmas ex = example_contract_def file_a_def file_b_def

lemma loop_member:
  assumes "mappings_loop self v toks = (ms, exc)" and "m \<in> set ms"
  shows "\<exists>v0 tok. tok \<in> set toks \<and> loop_body self v0 tok = Inr (locals_of m, m)"
proof -
  from assms(2) obtain i where i: "i < length ms" "ms ! i = m"
    by (auto simp: in_set_conv_nth)
  from loop_nth [OF assms(1) i(1)] i(2) show ?thesis
    by (metis nth_mem)
qed

lemma loop_member_lineno:
  assumes "mappings_loop self v toks = (ms, exc)" and "m \<in> set ms"
  shows "resolve_lineno self (offset m) (length_m m) (solidity_file_idx m) = Inr (lineno m)"
  using loop_member [OF assms] loop_body_InrD(3) by blast

lemma assign_field_SomeD:
  assumes "assign_field mp k var = Inr (Some x)"
  shows "present mp k \<Longrightarrow> py_int (mp ! k) = Some x"
    and "\<not> present mp k \<Longrightarrow> var = Some x"
  using assms by (auto simp: assign_field_def split: if_splits option.splits)

lemma assign_field_absent: "\<not> present mp k \<Longrightarrow> assign_field mp k var = Inr var"
  by (simp add: assign_field_def)

lemma assign_field_present:
  "present mp k \<Longrightarrow> assign_field mp k var = assign_field mp k var'"
  by (simp add: assign_field_def)

lemma assign_field_InlD: "assign_field mp k var = Inl e \<Longrightarrow> e = ValueError"
  by (auto simp: assign_field_def split: if_splits option.splits)

lemma read_token_InlD: "read_token v tok = Inl e \<Longrightarrow> e = ValueError"
  by (auto simp: read_token_def Let_def split: sum.splits dest: assign_field_InlD)

lemma absent_in_empty: "\<not> present (split_py sep []) k"
  by (cases k) (simp_all add: present_def)

lemma split_py_not_Nil: "split_py sep s \<noteq> []"
proof (induction s)
  case Nil
  show ?case by simp
next
  case (Cons c s)
  then show ?case by (cases "split_py sep s") simp_all
qed

text \<open>The fields a read token yields, by position.\<close>

lemma read_token_field:
  assumes "read_token v tok = Inr (item, a, b, c)" and "k < 3"
  shows "assign_field (split_py CHR '':'' item) k ([offset_var v, length_var v, idx_var v] ! k) =
           Inr ([a, b, c] ! k)"
proof -
  from assms(2) consider "k = 0" | "k = 1" | "k = 2" by linarith
  then show ?thesis
    using read_token_InrD(2-4) [OF assms(1)] by cases simp_all
qed

lemma loop_body_item:
  assumes "loop_body self v tok = Inr (v', m)"
  shows "solc_mapping m = (if tok = [] then prev_item v else tok)"
    and "prev_item v' = (if tok = [] then prev_item v else tok)"
  using read_token_InrD(1) [OF loop_body_InrD(1) [OF assms]] loop_body_InrD(2) [OF assms]
  by (simp_all add: locals_of_def)

lemma loop_body_empty_token: "loop_body self v [] = loop_body self v (prev_item v)"
  by (rule loop_body_read) (simp add: read_token_def)

lemma loop_inherit:
  "mappings_loop self v toks = mappings_loop self v (inherit_tokens (prev_item v) toks)"
proof (induction toks arbitrary: v)
  case Nil
  show ?case by simp
next
  case (Cons tok toks)
  show ?case
  proof (cases "loop_body self v tok")
    case (Inl e)
    then show ?thesis using loop_body_empty_token [of self v] by (cases "tok = []") simp_all
  next
    case (Inr p)
    obtain v' m where p: "p = (v', m)" by (cases p)
    from loop_body_item(2) [of self v tok v' m] Inr p
    have pv: "prev_item v' = (if tok = [] then prev_item v else tok)" by simp
    show ?thesis
    proof (cases "tok = []")
      case True
      with Inr p pv Cons.IH [of v'] loop_body_empty_token [of self v] show ?thesis by simp
    next
      case False
      with Inr p pv Cons.IH [of v'] show ?thesis by simp
    qed
  qed
qed

lemma loop_raw_token:
  "mappings_loop self v toks = (ms, exc) \<Longrightarrow> i < length ms \<Longrightarrow>
     solc_mapping (ms ! i) = inherit_tokens (prev_item v) toks ! i"
proof (induction toks arbitrary: v ms exc i)
  case Nil
  then show ?case by simp
next
  case (Cons tok toks)
  show ?case
  proof (cases "loop_body self v tok")
    case (Inl e)
    with Cons.prems show ?thesis by simp
  next
    case (Inr p)
    obtain v' m where p: "p = (v', m)" by (cases p)
    obtain ms' exc' where r: "mappings_loop self v' toks = (ms', exc')"
      by (cases "mappings_loop self v' toks")
    from Cons.prems Inr p r have ms: "ms = m # ms'" by auto
    note it = loop_body_item [of self v tok v' m]
    show ?thesis
    proof (cases i)
      case 0
      with Inr p ms it show ?thesis by simp
    next
      case (Suc j)
      with Cons.prems ms have "j < length ms'" by simp
      from Cons.IH [OF r this] Inr p it Suc ms show ?thesis by simp
    qed
  qed
qed

text \<open>The first token of a loop from the initial locals has to give all three fields.\<close>

lemma first_token_complete:
  assumes "loop_body self start tok = Inr (v', m)"
  shows "complete tok" and "tok \<noteq> []"
proof -
  from loop_body_InrD(1) [OF assms] obtain item where
    rt: "read_token start tok = Inr (item, Some (offset m), Some (length_m m), Some (solidity_file_idx m))"
    by blast
  from read_token_InrD(1) [OF rt] have item: "item = tok"
    by (simp add: start_def)
  have "present (split_py CHR '':'' tok) k" if "k < 3" for k
  proof (rule ccontr)
    assume "\<not> present (split_py CHR '':'' tok) k"
    from read_token_field [OF rt that] assign_field_absent [OF this] item that
    show False
      by (auto simp: start_def less_Suc_eq numeral_3_eq_3)
  qed
  then show c: "complete tok" by (simp add: complete_def)
  show "tok \<noteq> []"
  proof
    assume "tok = []"
    with c absent_in_empty [of "CHR '':''" 0] show False by (simp add: complete_def)
  qed
qed

lemma loop_raw_token_nonempty:
  assumes "mappings_loop self start toks = (ms, exc)" and "i < length ms"
  shows "solc_mapping (ms ! i) \<noteq> []"
  using assms(2)
proof (induction i)
  case 0
  from loop_nth [OF assms(1) 0] have
    b: "loop_body self start (toks ! 0) = Inr (locals_of (ms ! 0), ms ! 0)"
    by (simp add: locals_at_def)
  from first_token_complete(2) [OF b] loop_body_item(1) [OF b] show ?case by simp
next
  case (Suc j)
  then have j: "solc_mapping (ms ! j) \<noteq> []" by simp
  from loop_nth [OF assms(1) Suc.prems] have
    b: "loop_body self (locals_of (ms ! j)) (toks ! Suc j) = Inr (locals_of (ms ! Suc j), ms ! Suc j)"
    by (simp add: locals_at_def)
  from loop_body_item(1) [OF b] j show ?case
    by (simp add: locals_of_def split: if_splits)
qed

subsection \<open>The decoder on the example contract\<close>

lemma example_decode_empty_token:
  "decode example_contract ''10:5:0;;20:3:0'' =
     ([\<lparr>solidity_file_idx = 0, offset = 10, length_m = 5, lineno = Some 3,
         solc_mapping = ''10:5:0''\<rparr>,
       \<lparr>solidity_file_idx = 0, offset = 10, length_m = 5, lineno = Some 3,
         solc_mapping = ''10:5:0''\<rparr>,
       \<lparr>solidity_file_idx = 0, offset = 20, length_m = 3, lineno = None,
         solc_mapping = ''20:3:0''\<rparr>], None)"
  by (simp add: ev ex)

lemma example_decode_partial:
  "decode example_contract ''10:5:0;15::1'' =
     ([\<lparr>solidity_file_idx = 0, offset = 10, length_m = 5, lineno = Some 3,
         solc_mapping = ''10:5:0''\<rparr>,
       \<lparr>solidity_file_idx = 1, offset = 15, length_m = 5, lineno = Some 1,
         solc_mapping = ''15::1''\<rparr>], None)"
  by (simp add: ev ex)

lemma example_decode_lines:
  "decode example_contract ''1:1:0;4:1:0'' =
     ([\<lparr>solidity_file_idx = 0, offset = 1, length_m = 1, lineno = Some 1,
         solc_mapping = ''1:1:0''\<rparr>,
       \<lparr>solidity_file_idx = 0, offset = 4, length_m = 1, lineno = Some 2,
         solc_mapping = ''4:1:0''\<rparr>], None)"
  by (simp add: ev ex)

subsection \<open>Delta decoding\<close>

lemma decoded_field:
  assumes l: "mappings_loop self start toks = (ms, exc)" and i: "i < length ms"
    and ne: "toks ! i \<noteq> []" and k: "k < 3"
  shows "present (split_py CHR '':'' (toks ! i)) k \<longrightarrow>
           py_int (split_py CHR '':'' (toks ! i) ! k) = Some (field k (ms ! i))"
    and "\<not> present (split_py CHR '':'' (toks ! i)) k \<longrightarrow>
           0 < i \<and> field k (ms ! i) = field k (ms ! (i - 1))"
proof -
  let ?m = "ms ! i" and ?v = "locals_at start ms i"
  from loop_nth [OF l i] have b: "loop_body self ?v (toks ! i) = Inr (locals_of ?m, ?m)"
    by simp
  note rt = loop_body_InrD(1) [OF b]
  from read_token_InrD(1) [OF rt] ne have item: "solc_mapping ?m = toks ! i" by simp
  from k have kk: "k = 0 \<or> k = 1 \<or> k = 2" by linarith
  from read_token_field [OF rt k] item kk
  have af: "assign_field (split_py CHR '':'' (toks ! i)) k
              ([offset_var ?v, length_var ?v, idx_var ?v] ! k) = Inr (Some (field k ?m))"
    by (auto simp: field_def)
  show "present (split_py CHR '':'' (toks ! i)) k \<longrightarrow>
           py_int (split_py CHR '':'' (toks ! i) ! k) = Some (field k (ms ! i))"
    using assign_field_SomeD(1) [OF af] by simp
  show "\<not> present (split_py CHR '':'' (toks ! i)) k \<longrightarrow>
           0 < i \<and> field k (ms ! i) = field k (ms ! (i - 1))"
  proof
    assume "\<not> present (split_py CHR '':'' (toks ! i)) k"
    from assign_field_SomeD(2) [OF af this] kk
    show "0 < i \<and> field k (ms ! i) = field k (ms ! (i - 1))"
      by (cases i) (auto simp: locals_at_def locals_of_def start_def field_def)
  qed
qed

lemma decoded_empty_token:
  assumes l: "mappings_loop self start toks = (ms, exc)" and i: "i < length ms"
    and e: "toks ! i = []"
  shows "0 < i \<and> ms ! i = ms ! (i - 1)"
proof (cases i)
  case 0
  from loop_nth [OF l i] 0 e have "loop_body self start [] = Inr (locals_of (ms ! 0), ms ! 0)"
    by (simp add: locals_at_def)
  from first_token_complete(2) [OF this] show ?thesis by simp
next
  case (Suc j)
  with i have j: "j < length ms" by simp
  from loop_nth [OF l j] obtain v0 tok0 where
    "loop_body self v0 tok0 = Inr (locals_of (ms ! j), ms ! j)" by blast
  from loop_body_replay [OF this]
  have "loop_body self (locals_of (ms ! j)) [] = Inr (locals_of (ms ! j), ms ! j)" .
  moreover from loop_nth [OF l i] Suc e
  have "loop_body self (locals_of (ms ! j)) [] = Inr (locals_of (ms ! i), ms ! i)"
    by (simp add: locals_at_def)
  ultimately show ?thesis using Suc by simp
qed

lemma resolve_lineno_total:
  "0 \<le> ix \<Longrightarrow> ix < int (length (solidity_files self)) \<Longrightarrow>
     \<exists>ln. resolve_lineno self a b ix = Inr ln"
  by (simp add: resolve_lineno_def is_autogenerated_code_def count_lines_def py_index_def)

lemma decode_example_empty:
  assumes "1 \<le> length (solidity_files self)"
  shows "map triple (fst (decode self ''10:5:0;;20:3:0'')) = [(10, 5, 0), (10, 5, 0), (20, 3, 0)] \<and>
         snd (decode self ''10:5:0;;20:3:0'') = None"
proof -
  have "\<exists>ln. resolve_lineno self 10 5 0 = Inr ln"
    using assms by (intro resolve_lineno_total) auto
  then obtain l1 where l1: "resolve_lineno self 10 5 0 = Inr l1"
    by blast
  have "\<exists>ln. resolve_lineno self 20 3 0 = Inr ln"
    using assms by (intro resolve_lineno_total) auto
  then obtain l3 where l3: "resolve_lineno self 20 3 0 = Inr l3"
    by blast
  show ?thesis
    by (simp add: ev_read loop_body_def l1 l3 triple_def)
qed

lemma decode_example_partial:
  assumes "2 \<le> length (solidity_files self)"
  shows "map triple (fst (decode self ''10:5:0;15::1'')) = [(10, 5, 0), (15, 5, 1)] \<and>
         snd (decode self ''10:5:0;15::1'') = None"
proof -
  have "\<exists>ln. resolve_lineno self 10 5 0 = Inr ln"
    using assms by (intro resolve_lineno_total) auto
  then obtain l1 where l1: "resolve_lineno self 10 5 0 = Inr l1"
    by blast
  have "\<exists>ln. resolve_lineno self 15 5 1 = Inr ln"
    using assms by (intro resolve_lineno_total) auto
  then obtain l2 where l2: "resolve_lineno self 15 5 1 = Inr l2"
    by blast
  show ?thesis
    by (simp add: ev_read loop_body_def l1 l2 triple_def)
qed

text \<open>
  Claim C1. The decoder carries \<open>offset\<close>, \<open>length\<close> and \<open>idx\<close> across the tokens.
  \<^item> An empty token is read as the nearest non-empty token before it: the loop gives the
    same result on the tokens and on the tokens with the empty ones so replaced.
  \<^item> When a raw map decodes without exception, there is one mapping per token; the mapping
    of an empty token is the mapping before it; for a non-empty token split on \<^verbatim>\<open>":"\<close>, each
    of the first three positions that is present and non-empty is the integer of its
    mapping's field, and each absent or empty position leaves the field as in the mapping
    before it.
  \<^item> With at least one registered file \<^verbatim>\<open>"10:5:0;;20:3:0"\<close> decodes to
    \<open>[(10,5,0), (10,5,0), (20,3,0)]\<close>, and with at least two \<^verbatim>\<open>"10:5:0;15::1"\<close>
    decodes to \<open>[(10,5,0), (15,5,1)]\<close>.
\<close>

theorem delta_decoding:
  "mappings_loop self v toks = mappings_loop self v (inherit_tokens (prev_item v) toks) \<and>
   (decode self raw = (ms, None) \<and> i < length (split_py CHR '';'' raw) \<longrightarrow>
      length ms = length (split_py CHR '';'' raw) \<and>
      (split_py CHR '';'' raw ! i = [] \<longrightarrow> 0 < i \<and> ms ! i = ms ! (i - 1)) \<and>
      (split_py CHR '';'' raw ! i \<noteq> [] \<longrightarrow>
         (\<forall>k<3.
            (present (split_py CHR '':'' (split_py CHR '';'' raw ! i)) k \<longrightarrow>
               py_int (split_py CHR '':'' (split_py CHR '';'' raw ! i) ! k) =
                 Some (field k (ms ! i))) \<and>
            (\<not> present (split_py CHR '':'' (split_py CHR '';'' raw ! i)) k \<longrightarrow>
               0 < i \<and> field k (ms ! i) = field k (ms ! (i - 1)))))) \<and>
   (1 \<le> length (solidity_files self) \<longrightarrow>
      map triple (fst (decode self ''10:5:0;;20:3:0'')) = [(10, 5, 0), (10, 5, 0), (20, 3, 0)] \<and>
      snd (decode self ''10:5:0;;20:3:0'') = None) \<and>
   (2 \<le> length (solidity_files self) \<longrightarrow>
      map triple (fst (decode self ''10:5:0;15::1'')) = [(10, 5, 0), (15, 5, 1)] \<and>
      snd (decode self ''10:5:0;15::1'') = None)"
proof (intro conjI impI allI)
  show "mappings_loop self v toks = mappings_loop self v (inherit_tokens (prev_item v) toks)"
    by (rule loop_inherit)
next
  assume "1 \<le> length (solidity_files self)"
  from decode_example_empty [OF this]
  show "map triple (fst (decode self ''10:5:0;;20:3:0'')) = [(10, 5, 0), (10, 5, 0), (20, 3, 0)]"
    and "snd (decode self ''10:5:0;;20:3:0'') = None" by simp_all
next
  assume "2 \<le> length (solidity_files self)"
  from decode_example_partial [OF this]
  show "map triple (fst (decode self ''10:5:0;15::1'')) = [(10, 5, 0), (15, 5, 1)]"
    and "snd (decode self ''10:5:0;15::1'') = None" by simp_all
next
  assume a: "decode self raw = (ms, None) \<and> i < length (split_py CHR '';'' raw)"
  then have l: "mappings_loop self start (split_py CHR '';'' raw) = (ms, None)"
    by (simp add: decode_def)
  from loop_exc [OF l] show len: "length ms = length (split_py CHR '';'' raw)" by simp
  with a have i: "i < length ms" by simp
  {
    assume "split_py CHR '';'' raw ! i = []"
    from decoded_empty_token [OF l i this] show "0 < i" and "ms ! i = ms ! (i - 1)" by simp_all
  }
  {
    fix k :: nat
    assume ne: "split_py CHR '';'' raw ! i \<noteq> []" and k: "k < 3"
    {
      assume "present (split_py CHR '':'' (split_py CHR '';'' raw ! i)) k"
      with decoded_field(1) [OF l i ne k]
      show "py_int (split_py CHR '':'' (split_py CHR '';'' raw ! i) ! k) = Some (field k (ms ! i))"
        by simp
    }
    {
      assume "\<not> present (split_py CHR '':'' (split_py CHR '';'' raw ! i)) k"
      with decoded_field(2) [OF l i ne k]
      show "0 < i" and "field k (ms ! i) = field k (ms ! (i - 1))" by simp_all
    }
  }
qed

theorem delta_decoding_witness:
  "decode example_contract ''10:5:0;15::1'' =
     ([\<lparr>solidity_file_idx = 0, offset = 10, length_m = 5, lineno = Some 3,
         solc_mapping = ''10:5:0''\<rparr>,
       \<lparr>solidity_file_idx = 1, offset = 15, length_m = 5, lineno = Some 1,
         solc_mapping = ''15::1''\<rparr>], None) \<and>
   split_py CHR '';'' ''10:5:0;15::1'' = [''10:5:0'', ''15::1''] \<and>
   split_py CHR '':'' ''15::1'' = [''15'', [], ''1''] \<and>
   py_int ''15'' = Some 15 \<and> py_int ''1'' = Some 1 \<and>
   length (solidity_files example_contract) = 2 \<and>
   map triple (fst (decode example_contract ''10:5:0;;20:3:0'')) =
     [(10, 5, 0), (10, 5, 0), (20, 3, 0)] \<and>
   map triple (fst (decode example_contract ''10:5:0;15::1'')) = [(10, 5, 0), (15, 5, 1)]"
  using delta_decoding
    [of example_contract start "[]" "''10:5:0;15::1''"
        "[\<lparr>solidity_file_idx = 0, offset = 10, length_m = 5, lineno = Some 3,
            solc_mapping = ''10:5:0''\<rparr>,
          \<lparr>solidity_file_idx = 1, offset = 15, length_m = 5, lineno = Some 1,
            solc_mapping = ''15::1''\<rparr>]" 1]
    example_decode_partial example_decode_empty_token
  by (simp add: ev_read triple_def example_contract_def)

subsection \<open>The token a mapping stores\<close>

text \<open>
  Claim C5, as the code has it. The loop overwrites \<^verbatim>\<open>item\<close> before it stores it: the
  mapping of a position stores the token after the substitution, that is the token itself
  when it is not empty, and for an empty token the token stored by the mapping before it.
  The stored token is never empty.
\<close>

theorem raw_token_after_substitution:
  "mappings_loop self start toks = (ms, exc) \<and> i < length ms \<longrightarrow>
     solc_mapping (ms ! i) = inherit_tokens [] toks ! i \<and>
     solc_mapping (ms ! i) \<noteq> [] \<and>
     (toks ! i \<noteq> [] \<longrightarrow> solc_mapping (ms ! i) = toks ! i) \<and>
     (toks ! i = [] \<longrightarrow> 0 < i \<and> solc_mapping (ms ! i) = solc_mapping (ms ! (i - 1)))"
proof (intro impI, elim conjE)
  assume l: "mappings_loop self start toks = (ms, exc)" and i: "i < length ms"
  from loop_nth [OF l i] have
    b: "loop_body self (locals_at start ms i) (toks ! i) = Inr (locals_of (ms ! i), ms ! i)"
    by simp
  note it = loop_body_item(1) [OF b]
  note ne = loop_raw_token_nonempty [OF l i]
  have "solc_mapping (ms ! i) = inherit_tokens [] toks ! i"
    using loop_raw_token [OF l i] by (simp add: start_def)
  moreover have "toks ! i = [] \<longrightarrow> 0 < i \<and> solc_mapping (ms ! i) = solc_mapping (ms ! (i - 1))"
    using it ne by (cases i) (auto simp: locals_at_def locals_of_def start_def)
  moreover have "toks ! i \<noteq> [] \<longrightarrow> solc_mapping (ms ! i) = toks ! i"
    using it by simp
  ultimately show "solc_mapping (ms ! i) = inherit_tokens [] toks ! i \<and>
     solc_mapping (ms ! i) \<noteq> [] \<and>
     (toks ! i \<noteq> [] \<longrightarrow> solc_mapping (ms ! i) = toks ! i) \<and>
     (toks ! i = [] \<longrightarrow> 0 < i \<and> solc_mapping (ms ! i) = solc_mapping (ms ! (i - 1)))"
    using ne by blast
qed

theorem raw_token_after_substitution_witness:
  "mappings_loop example_contract start [''10:5:0'', [], ''20:3:0''] =
     ([\<lparr>solidity_file_idx = 0, offset = 10, length_m = 5, lineno = Some 3,
         solc_mapping = ''10:5:0''\<rparr>,
       \<lparr>solidity_file_idx = 0, offset = 10, length_m = 5, lineno = Some 3,
         solc_mapping = ''10:5:0''\<rparr>,
       \<lparr>solidity_file_idx = 0, offset = 20, length_m = 3, lineno = None,
         solc_mapping = ''20:3:0''\<rparr>], None) \<and>
   inherit_tokens [] [''10:5:0'', [], ''20:3:0''] ! 1 = ''10:5:0''"
  using raw_token_after_substitution
    [of example_contract "[''10:5:0'', [], ''20:3:0'']"
        "[\<lparr>solidity_file_idx = 0, offset = 10, length_m = 5, lineno = Some 3,
            solc_mapping = ''10:5:0''\<rparr>,
          \<lparr>solidity_file_idx = 0, offset = 10, length_m = 5, lineno = Some 3,
            solc_mapping = ''10:5:0''\<rparr>,
          \<lparr>solidity_file_idx = 0, offset = 20, length_m = 3, lineno = None,
            solc_mapping = ''20:3:0''\<rparr>]" None 1]
    example_decode_empty_token
  by (simp add: decode_def)

text \<open>
  Claim C5 as stated fails: the second token of \<^verbatim>\<open>"10:5:0;;20:3:0"\<close> is empty, and its
  mapping stores \<^verbatim>\<open>"10:5:0"\<close>.
\<close>

theorem raw_token_counterexample:
  "split_py CHR '';'' ''10:5:0;;20:3:0'' ! 1 = [] \<and>
   solc_mapping (fst (decode example_contract ''10:5:0;;20:3:0'') ! 1) = ''10:5:0'' \<and>
   solc_mapping (fst (decode example_contract ''10:5:0;;20:3:0'') ! 1) \<noteq>
     split_py CHR '';'' ''10:5:0;;20:3:0'' ! 1"
  by (simp add: example_decode_empty_token)

subsection \<open>A first token that omits a field\<close>

lemma loop_body_unbound:
  assumes "read_token v tok = Inr (item, a, b, c)" and "a = None \<or> b = None \<or> c = None"
  shows "loop_body self v tok = Inl UnboundLocalError"
  using assms by (cases a; cases b; cases c) (simp_all add: loop_body_def)

lemma first_token_omission:
  assumes "k < 3" and "\<not> present (split_py CHR '':'' tok) k"
  shows "loop_body self start tok = Inl ValueError \<or>
         loop_body self start tok = Inl UnboundLocalError"
proof (cases "read_token start tok")
  case (Inl e)
  with read_token_InlD [OF Inl] show ?thesis by (simp add: loop_body_def)
next
  case (Inr r)
  obtain item a b c where r: "r = (item, a, b, c)" by (cases r) auto
  with Inr have rt: "read_token start tok = Inr (item, a, b, c)" by simp
  from read_token_InrD(1) [OF rt] have item: "item = tok" by (simp add: start_def)
  from read_token_field [OF rt assms(1)] assign_field_absent [OF assms(2)] item
  have "[a, b, c] ! k = None"
    using assms(1) by (auto simp: start_def less_Suc_eq numeral_3_eq_3)
  with assms(1) have "a = None \<or> b = None \<or> c = None"
    by (auto simp: less_Suc_eq numeral_3_eq_3)
  from loop_body_unbound [OF rt this] show ?thesis by simp
qed

text \<open>
  Claim C7. When the first token of a raw map leaves one of its first three fields absent
  or empty, decoding raises before it appends anything, and the object is left as it was.
  The exception is the specification's \<open>DecodeError\<close>: Python's \<open>UnboundLocalError\<close> for the
  local that was never assigned, or \<open>ValueError\<close> when a field that is given is no integer.
\<close>

theorem first_token_omission_fails:
  assumes "k < 3" and "\<not> present (split_py CHR '':'' (hd (split_py CHR '';'' raw))) k"
  shows "\<exists>e \<in> DecodeError.
           decode self raw = ([], Some e) \<and>
           get_solc_mappings self (split_py CHR '';'' raw) constructor = (self, Some e)"
proof -
  obtain tok rest where toks: "split_py CHR '';'' raw = tok # rest"
    using split_py_not_Nil [of "CHR '';''" raw] by (cases "split_py CHR '';'' raw") auto
  with assms(2) have "\<not> present (split_py CHR '':'' tok) k" by simp
  from first_token_omission [OF assms(1) this, of self]
  obtain e where e: "e \<in> DecodeError" "loop_body self start tok = Inl e"
    by (auto simp: DecodeError_def)
  then show ?thesis
    using toks by (auto simp: decode_def get_solc_mappings_def)
qed

theorem first_token_omission_fails_witness:
  "(1::nat) < 3 \<and> split_py CHR '':'' (hd (split_py CHR '';'' ''10::0;20:5:0'')) = [''10'', [], ''0''] \<and>
   decode example_contract ''10::0;20:5:0'' = ([], Some UnboundLocalError) \<and>
   get_solc_mappings example_contract (split_py CHR '';'' ''10::0;20:5:0'') False =
     (example_contract, Some UnboundLocalError)"
  using first_token_omission_fails [of 1 "''10::0;20:5:0''" example_contract False]
  by (simp add: ev get_solc_mappings_def)

subsection \<open>Decoding and independent parsing\<close>

lemma complete_nonempty: "complete tok \<Longrightarrow> tok \<noteq> []"
  using absent_in_empty [of "CHR '':''" 0] by (auto simp: complete_def)

lemma read_token_complete:
  assumes "complete tok"
  shows "read_token v tok = read_token v' tok"
  using assms complete_nonempty [OF assms]
    assign_field_present [of "split_py CHR '':'' tok" 0 "offset_var v" "offset_var v'"]
    assign_field_present [of "split_py CHR '':'' tok" 1 "length_var v" "length_var v'"]
    assign_field_present [of "split_py CHR '':'' tok" 2 "idx_var v" "idx_var v'"]
  by (simp add: read_token_def complete_def Let_def cong: sum.case_cong)

lemma loop_independent:
  "list_all complete toks \<Longrightarrow> mappings_loop self v toks = independent_loop self toks"
proof (induction toks arbitrary: v)
  case Nil
  show ?case by simp
next
  case (Cons tok toks)
  then have c: "complete tok" and cs: "list_all complete toks" by simp_all
  from loop_body_read [OF read_token_complete [OF c]]
  have b: "loop_body self v tok = loop_body self start tok" .
  show ?case
  proof (cases "loop_body self start tok")
    case (Inl e)
    with b show ?thesis by simp
  next
    case (Inr p)
    obtain v' m where p: "p = (v', m)" by (cases p)
    with Inr b Cons.IH [OF cs, of v'] show ?thesis by simp
  qed
qed

text \<open>
  Claim C8, as the code has it. When every token of the raw map gives all of its first
  three fields (present and non-empty), decoding the map is parsing each token
  independently of the others.
\<close>

theorem complete_tokens_decode_independently:
  "list_all complete (split_py CHR '';'' raw) \<longrightarrow>
     decode self raw = independent_loop self (split_py CHR '';'' raw)"
  by (simp add: decode_def loop_independent)

theorem complete_tokens_decode_independently_witness:
  "list_all complete (split_py CHR '';'' ''10:5:0;20:3:0'') \<and>
   decode example_contract ''10:5:0;20:3:0'' =
     independent_loop example_contract (split_py CHR '';'' ''10:5:0;20:3:0'') \<and>
   decode example_contract ''10:5:0;20:3:0'' =
     ([\<lparr>solidity_file_idx = 0, offset = 10, length_m = 5, lineno = Some 3,
         solc_mapping = ''10:5:0''\<rparr>,
       \<lparr>solidity_file_idx = 0, offset = 20, length_m = 3, lineno = None,
         solc_mapping = ''20:3:0''\<rparr>], None)"
  using complete_tokens_decode_independently [of "''10:5:0;20:3:0''" example_contract]
  by (simp add: ev ex complete_def)

text \<open>
  Claim C8 as stated fails: \<^verbatim>\<open>"10:5:0;15::1"\<close> has no empty token, its second token inherits
  the length of the first, and parsed alone the second token raises.
\<close>

theorem independent_parsing_counterexample:
  "[] \<notin> set (split_py CHR '';'' ''10:5:0;15::1'') \<and>
   decode example_contract ''10:5:0;15::1'' =
     ([\<lparr>solidity_file_idx = 0, offset = 10, length_m = 5, lineno = Some 3,
         solc_mapping = ''10:5:0''\<rparr>,
       \<lparr>solidity_file_idx = 1, offset = 15, length_m = 5, lineno = Some 1,
         solc_mapping = ''15::1''\<rparr>], None) \<and>
   independent_loop example_contract (split_py CHR '';'' ''10:5:0;15::1'') =
     ([\<lparr>solidity_file_idx = 0, offset = 10, length_m = 5, lineno = Some 3,
         solc_mapping = ''10:5:0''\<rparr>], Some UnboundLocalError) \<and>
   decode example_contract ''10:5:0;15::1'' \<noteq>
     independent_loop example_contract (split_py CHR '';'' ''10:5:0;15::1'')"
  by (simp add: ev ex)

subsection \<open>Autogenerated code\<close>

lemma autogenerated_True_iff:
  "is_autogenerated_code self off len ix = Inr True \<longleftrightarrow>
     (ix = - 1 \<or>
      (\<exists>f. py_index (solidity_files self) ix = Inr f \<and>
           format3 off len ix \<in> full_contract_source f))"
  by (auto simp: is_autogenerated_code_def split: sum.splits)

lemma resolve_lineno_None_iff:
  "resolve_lineno self a b c = Inr ln \<Longrightarrow>
     (ln = None) = (is_autogenerated_code self a b c = Inr True)"
  by (auto simp: resolve_lineno_def split: sum.splits if_splits)

text \<open>
  Claim C3. \<^verbatim>\<open>_is_autogenerated_code\<close> returns \<open>True\<close> exactly when the file index is \<open>-1\<close>
  or the string \<^verbatim>\<open>"{offset}:{length}:{file_index}"\<close> is a member of the
  \<^verbatim>\<open>full_contract_source\<close> set of the file at that index (membership of the exact string,
  no containment of ranges). Every mapping the decoder appends has line number \<open>None\<close>
  exactly when its three fields are classified autogenerated.
\<close>

theorem autogenerated_classification:
  "(is_autogenerated_code self off len ix = Inr True \<longleftrightarrow>
      (ix = - 1 \<or>
       (\<exists>f. py_index (solidity_files self) ix = Inr f \<and>
            format3 off len ix \<in> full_contract_source f))) \<and>
   (mappings_loop self v toks = (ms, exc) \<and> m \<in> set ms \<longrightarrow>
      (lineno m = None) =
      (is_autogenerated_code self (offset m) (length_m m) (solidity_file_idx m) = Inr True))"
  using autogenerated_True_iff loop_member_lineno resolve_lineno_None_iff by blast

theorem autogenerated_classification_witness:
  "decode example_contract ''20:3:0;20:3:-1'' =
     ([\<lparr>solidity_file_idx = 0, offset = 20, length_m = 3, lineno = None,
         solc_mapping = ''20:3:0''\<rparr>,
       \<lparr>solidity_file_idx = - 1, offset = 20, length_m = 3, lineno = None,
         solc_mapping = ''20:3:-1''\<rparr>], None) \<and>
   is_autogenerated_code example_contract 20 3 0 = Inr True \<and>
   is_autogenerated_code example_contract 20 3 (- 1) = Inr True \<and>
   py_index (solidity_files example_contract) 0 = Inr file_a \<and>
   format3 20 3 0 \<in> full_contract_source file_a"
  using autogenerated_classification
    [of example_contract 20 3 0 start "[''20:3:0'', ''20:3:-1'']"
        "[\<lparr>solidity_file_idx = 0, offset = 20, length_m = 3, lineno = None,
            solc_mapping = ''20:3:0''\<rparr>,
          \<lparr>solidity_file_idx = - 1, offset = 20, length_m = 3, lineno = None,
            solc_mapping = ''20:3:-1''\<rparr>]" None
        "\<lparr>solidity_file_idx = 0, offset = 20, length_m = 3, lineno = None,
            solc_mapping = ''20:3:0''\<rparr>"]
  by (simp add: ev ex)

subsection \<open>Line numbers\<close>

lemma count_take_mono:
  "a \<le> b \<Longrightarrow> count_list (take a xs) c \<le> count_list (take b xs) c"
proof -
  assume "a \<le> b"
  then have "take b xs = take a xs @ take (b - a) (drop a xs)"
    using take_add [of a "b - a" xs] by simp
  then show ?thesis by simp
qed

lemma py_slice_prefix: "0 \<le> off \<Longrightarrow> py_slice xs 0 off = take (nat off) xs"
  by (simp add: py_slice_def slice_bound_def min_def)

lemma resolve_lineno_user_code:
  assumes "resolve_lineno self a b c = Inr ln"
    and "is_autogenerated_code self a b c = Inr False"
  shows "\<exists>f. py_index (solidity_files self) c = Inr f \<and>
             ln = Some (int (count_list (py_slice (data f) 0 a) CHR 0x0A) + 1)"
  using assms
  by (auto simp: resolve_lineno_def count_lines_def split: sum.splits)

lemma count_list_zero: "c \<notin> set xs \<Longrightarrow> count_list xs c = 0"
  by (induction xs) auto

text \<open>
  Claim C4, as the code has it. The line number of a decoded mapping that is not
  classified autogenerated is one more than the number of newline bytes in the Python
  slice \<^verbatim>\<open>[0:offset]\<close> of the file's bytes. For an offset that is not negative this slice
  is the first \<open>offset\<close> bytes: line numbers start at 1, an offset with no newline before
  it is on line 1, and within one file the line number does not decrease as the offset
  grows over the non-negative offsets.
\<close>

theorem line_number_resolution:
  "mappings_loop self v toks = (ms, exc) \<and> m \<in> set ms \<and>
   is_autogenerated_code self (offset m) (length_m m) (solidity_file_idx m) = Inr False \<longrightarrow>
     (\<exists>f. py_index (solidity_files self) (solidity_file_idx m) = Inr f \<and>
          lineno m = Some (int (count_list (py_slice (data f) 0 (offset m)) CHR 0x0A) + 1) \<and>
          (0 \<le> offset m \<longrightarrow>
             lineno m = Some (int (count_list (take (nat (offset m)) (data f)) CHR 0x0A) + 1)) \<and>
          (0 \<le> offset m \<and> CHR 0x0A \<notin> set (take (nat (offset m)) (data f)) \<longrightarrow>
             lineno m = Some 1)) \<and>
     (\<exists>n. lineno m = Some n \<and> 1 \<le> n) \<and>
     (\<forall>m' \<in> set ms.
        solidity_file_idx m' = solidity_file_idx m \<and>
        is_autogenerated_code self (offset m') (length_m m') (solidity_file_idx m') = Inr False \<and>
        0 \<le> offset m \<and> offset m \<le> offset m' \<longrightarrow>
          (\<exists>n n'. lineno m = Some n \<and> lineno m' = Some n' \<and> n \<le> n'))"
proof (intro impI, elim conjE)
  assume l: "mappings_loop self v toks = (ms, exc)" and m: "m \<in> set ms"
    and u: "is_autogenerated_code self (offset m) (length_m m) (solidity_file_idx m) = Inr False"
  from resolve_lineno_user_code [OF loop_member_lineno [OF l m] u] obtain f where
    f: "py_index (solidity_files self) (solidity_file_idx m) = Inr f"
    and ln: "lineno m = Some (int (count_list (py_slice (data f) 0 (offset m)) CHR 0x0A) + 1)"
    by blast
  have p: "0 \<le> offset m \<longrightarrow>
      lineno m = Some (int (count_list (take (nat (offset m)) (data f)) CHR 0x0A) + 1)"
    using ln by (simp add: py_slice_prefix)
  have one: "0 \<le> offset m \<and> CHR 0x0A \<notin> set (take (nat (offset m)) (data f)) \<longrightarrow>
      lineno m = Some 1"
    using p by (simp add: count_list_zero)
  have pos: "\<exists>n. lineno m = Some n \<and> 1 \<le> n"
    using ln by simp
  have mono: "\<forall>m' \<in> set ms.
        solidity_file_idx m' = solidity_file_idx m \<and>
        is_autogenerated_code self (offset m') (length_m m') (solidity_file_idx m') = Inr False \<and>
        0 \<le> offset m \<and> offset m \<le> offset m' \<longrightarrow>
          (\<exists>n n'. lineno m = Some n \<and> lineno m' = Some n' \<and> n \<le> n')"
  proof (intro ballI impI, elim conjE)
    fix m'
    assume m': "m' \<in> set ms" and same: "solidity_file_idx m' = solidity_file_idx m"
      and u': "is_autogenerated_code self (offset m') (length_m m') (solidity_file_idx m') = Inr False"
      and o: "0 \<le> offset m" "offset m \<le> offset m'"
    from resolve_lineno_user_code [OF loop_member_lineno [OF l m'] u'] same f
    have ln': "lineno m' = Some (int (count_list (py_slice (data f) 0 (offset m')) CHR 0x0A) + 1)"
      by auto
    from o have "nat (offset m) \<le> nat (offset m')" by simp
    from count_take_mono [OF this, of "data f" "CHR 0x0A"] o ln ln'
    show "\<exists>n n'. lineno m = Some n \<and> lineno m' = Some n' \<and> n \<le> n'"
      by (simp add: py_slice_prefix)
  qed
  from f ln p one pos mono
  show "(\<exists>f. py_index (solidity_files self) (solidity_file_idx m) = Inr f \<and>
          lineno m = Some (int (count_list (py_slice (data f) 0 (offset m)) CHR 0x0A) + 1) \<and>
          (0 \<le> offset m \<longrightarrow>
             lineno m = Some (int (count_list (take (nat (offset m)) (data f)) CHR 0x0A) + 1)) \<and>
          (0 \<le> offset m \<and> CHR 0x0A \<notin> set (take (nat (offset m)) (data f)) \<longrightarrow>
             lineno m = Some 1)) \<and>
     (\<exists>n. lineno m = Some n \<and> 1 \<le> n) \<and>
     (\<forall>m' \<in> set ms.
        solidity_file_idx m' = solidity_file_idx m \<and>
        is_autogenerated_code self (offset m') (length_m m') (solidity_file_idx m') = Inr False \<and>
        0 \<le> offset m \<and> offset m \<le> offset m' \<longrightarrow>
          (\<exists>n n'. lineno m = Some n \<and> lineno m' = Some n' \<and> n \<le> n'))"
    by blast
qed

theorem line_number_resolution_witness:
  "mappings_loop example_contract start [''1:1:0'', ''4:1:0''] =
     ([\<lparr>solidity_file_idx = 0, offset = 1, length_m = 1, lineno = Some 1,
         solc_mapping = ''1:1:0''\<rparr>,
       \<lparr>solidity_file_idx = 0, offset = 4, length_m = 1, lineno = Some 2,
         solc_mapping = ''4:1:0''\<rparr>], None) \<and>
   is_autogenerated_code example_contract 1 1 0 = Inr False \<and>
   is_autogenerated_code example_contract 4 1 0 = Inr False \<and>
   py_index (solidity_files example_contract) 0 = Inr file_a \<and>
   CHR 0x0A \<notin> set (take (nat 1) (data file_a)) \<and>
   int (count_list (take (nat 4) (data file_a)) CHR 0x0A) + 1 = 2"
  using line_number_resolution
    [where self = example_contract and v = start and toks = "[''1:1:0'', ''4:1:0'']"
       and ms = "[\<lparr>solidity_file_idx = 0, offset = 1, length_m = 1, lineno = Some 1,
                     solc_mapping = ''1:1:0''\<rparr>,
                  \<lparr>solidity_file_idx = 0, offset = 4, length_m = 1, lineno = Some 2,
                     solc_mapping = ''4:1:0''\<rparr>]"
       and exc = None
       and m = "\<lparr>solidity_file_idx = 0, offset = 1, length_m = 1, lineno = Some 1,
                   solc_mapping = ''1:1:0''\<rparr>"]
  by (simp add: ev ex)

text \<open>
  Claim C4 as stated fails for a negative offset, which the decoder accepts: Python's
  slice \<^verbatim>\<open>[0:-1]\<close> is all of the file but its last byte. In \<open>file_a\<close> the mapping of offset
  \<open>-1\<close> gets line 3, where no byte precedes the offset, and the mapping of the greater
  offset \<open>0\<close> gets line 1.
\<close>

theorem negative_offset_counterexample:
  "decode example_contract ''-1:5:0;0:5:0'' =
     ([\<lparr>solidity_file_idx = 0, offset = - 1, length_m = 5, lineno = Some 3,
         solc_mapping = ''-1:5:0''\<rparr>,
       \<lparr>solidity_file_idx = 0, offset = 0, length_m = 5, lineno = Some 1,
         solc_mapping = ''0:5:0''\<rparr>], None) \<and>
   is_autogenerated_code example_contract (- 1) 5 0 = Inr False \<and>
   is_autogenerated_code example_contract 0 5 0 = Inr False \<and>
   py_index (solidity_files example_contract) 0 = Inr file_a \<and>
   lineno (fst (decode example_contract ''-1:5:0;0:5:0'') ! 0) \<noteq>
     Some (int (count_list (take (nat (- 1)) (data file_a)) CHR 0x0A) + 1) \<and>
   offset (fst (decode example_contract ''-1:5:0;0:5:0'') ! 0) <
     offset (fst (decode example_contract ''-1:5:0;0:5:0'') ! 1) \<and>
   lineno (fst (decode example_contract ''-1:5:0;0:5:0'') ! 0) = Some 3 \<and>
   lineno (fst (decode example_contract ''-1:5:0;0:5:0'') ! 1) = Some 1"
  by (simp add: ev ex)

subsection \<open>File indices outside the registry\<close>

lemma py_index_Inr_iff:
  "(\<exists>f. py_index xs i = Inr f) \<longleftrightarrow> (- int (length xs) \<le> i \<and> i < int (length xs))"
  by (auto simp: py_index_def)

lemma py_index_high: "int (length xs) \<le> i \<Longrightarrow> py_index xs i = Inl IndexError"
  by (simp add: py_index_def)

lemma autogenerated_high:
  "int (length (solidity_files self)) \<le> c \<Longrightarrow> is_autogenerated_code self a b c = Inl IndexError"
  by (simp add: is_autogenerated_code_def py_index_high)

lemma resolve_lineno_high:
  "int (length (solidity_files self)) \<le> c \<Longrightarrow> resolve_lineno self a b c = Inl IndexError"
  by (simp add: resolve_lineno_def autogenerated_high)

lemma resolve_lineno_index:
  assumes "resolve_lineno self a b c = Inr ln" and "c \<noteq> - 1"
  shows "\<exists>f. py_index (solidity_files self) c = Inr f"
  using assms
  by (auto simp: resolve_lineno_def is_autogenerated_code_def split: sum.splits if_splits)

lemma loop_body_high:
  assumes "read_token v tok = Inr (item, Some a, Some b, Some c)"
    and "int (length (solidity_files self)) \<le> c"
  shows "loop_body self v tok = Inl IndexError"
  using assms by (simp add: loop_body_def resolve_lineno_high)

lemma locals_at_Cons:
  "locals_at (locals_of m) ms (length ms) = locals_at v (m # ms) (length (m # ms))"
  by (cases ms) (simp_all add: locals_at_def)

lemma loop_append:
  "mappings_loop self v xs = (ms, None) \<Longrightarrow>
     mappings_loop self v (xs @ ys) =
       (case mappings_loop self (locals_at v ms (length ms)) ys of
          (ms', exc) \<Rightarrow> (ms @ ms', exc))"
proof (induction xs arbitrary: v ms)
  case Nil
  then show ?case by (simp add: locals_at_def split: prod.splits)
next
  case (Cons tok xs)
  show ?case
  proof (cases "loop_body self v tok")
    case (Inl e)
    with Cons.prems show ?thesis by simp
  next
    case (Inr p)
    obtain v' m where p: "p = (v', m)" by (cases p)
    obtain ms' exc' where r: "mappings_loop self v' xs = (ms', exc')"
      by (cases "mappings_loop self v' xs")
    from Cons.prems Inr p r have ms: "ms = m # ms'" and exc: "exc' = None" by auto
    from loop_body_InrD(2) [of self v tok v' m] Inr p have v': "v' = locals_of m" by simp
    from Cons.IH [OF r [unfolded exc]] Inr p ms v' locals_at_Cons [of m ms' v]
    show ?thesis by (simp split: prod.splits)
  qed
qed

text \<open>
  Claim C9. Every mapping the decoder appends has file index \<open>-1\<close> or an index that
  subscripts the list of source files. A token that yields a file index at or beyond the
  number of registered files makes the autogenerated check subscript the list out of
  range: the body raises \<open>IndexError\<close> and appends nothing, and the decoding of a map
  ends there with that exception, keeping the mappings of the tokens before.
\<close>

theorem registry_index_unguarded:
  "(mappings_loop self v toks = (ms, exc) \<and> m \<in> set ms \<and> solidity_file_idx m \<noteq> - 1 \<longrightarrow>
      (\<exists>f. py_index (solidity_files self) (solidity_file_idx m) = Inr f) \<and>
      - int (length (solidity_files self)) \<le> solidity_file_idx m \<and>
      solidity_file_idx m < int (length (solidity_files self))) \<and>
   (read_token v tok = Inr (item, Some a, Some b, Some c) \<and>
    int (length (solidity_files self)) \<le> c \<longrightarrow>
      is_autogenerated_code self a b c = Inl IndexError \<and>
      loop_body self v tok = Inl IndexError) \<and>
   (mappings_loop self start pre = (ms', None) \<and>
    read_token (locals_at start ms' (length ms')) tok' = Inr (item', Some a', Some b', Some c') \<and>
    int (length (solidity_files self)) \<le> c' \<longrightarrow>
      mappings_loop self start (pre @ tok' # post) = (ms', Some IndexError))"
proof (intro conjI impI)
  assume a: "mappings_loop self v toks = (ms, exc) \<and> m \<in> set ms \<and> solidity_file_idx m \<noteq> - 1"
  then have "resolve_lineno self (offset m) (length_m m) (solidity_file_idx m) = Inr (lineno m)"
    using loop_member_lineno by blast
  from resolve_lineno_index [OF this] a
  show f: "\<exists>f. py_index (solidity_files self) (solidity_file_idx m) = Inr f" by simp
  with py_index_Inr_iff [of "solidity_files self" "solidity_file_idx m"]
  show "- int (length (solidity_files self)) \<le> solidity_file_idx m"
    and "solidity_file_idx m < int (length (solidity_files self))" by simp_all
next
  assume a: "read_token v tok = Inr (item, Some a, Some b, Some c) \<and>
    int (length (solidity_files self)) \<le> c"
  then show "is_autogenerated_code self a b c = Inl IndexError"
    by (simp add: autogenerated_high)
  from a loop_body_high show "loop_body self v tok = Inl IndexError" by blast
next
  assume a: "mappings_loop self start pre = (ms', None) \<and>
    read_token (locals_at start ms' (length ms')) tok' = Inr (item', Some a', Some b', Some c') \<and>
    int (length (solidity_files self)) \<le> c'"
  then have "loop_body self (locals_at start ms' (length ms')) tok' = Inl IndexError"
    using loop_body_high by blast
  with a loop_append [of self start pre ms' "tok' # post"]
  show "mappings_loop self start (pre @ tok' # post) = (ms', Some IndexError)"
    by simp
qed

theorem registry_index_unguarded_witness:
  "mappings_loop example_contract start [''10:5:0''] =
     ([\<lparr>solidity_file_idx = 0, offset = 10, length_m = 5, lineno = Some 3,
         solc_mapping = ''10:5:0''\<rparr>], None) \<and>
   read_token (locals_of \<lparr>solidity_file_idx = 0, offset = 10, length_m = 5, lineno = Some 3,
         solc_mapping = ''10:5:0''\<rparr>) ''3:1:2'' = Inr (''3:1:2'', Some 3, Some 1, Some 2) \<and>
   int (length (solidity_files example_contract)) \<le> 2 \<and>
   is_autogenerated_code example_contract 3 1 2 = Inl IndexError \<and>
   mappings_loop example_contract start [''10:5:0'', ''3:1:2'', ''4:1:0''] =
     ([\<lparr>solidity_file_idx = 0, offset = 10, length_m = 5, lineno = Some 3,
         solc_mapping = ''10:5:0''\<rparr>], Some IndexError) \<and>
   py_index (solidity_files example_contract) 0 = Inr file_a"
  using registry_index_unguarded
    [where self = example_contract and v = start and toks = "[''10:5:0'']"
       and ms = "[\<lparr>solidity_file_idx = 0, offset = 10, length_m = 5, lineno = Some 3,
                     solc_mapping = ''10:5:0''\<rparr>]"
       and exc = None
       and m = "\<lparr>solidity_file_idx = 0, offset = 10, length_m = 5, lineno = Some 3,
                   solc_mapping = ''10:5:0''\<rparr>"
       and tok = "''3:1:2''" and item = "''3:1:2''" and a = 3 and b = 1 and c = 2
       and pre = "[''10:5:0'']"
       and ms' = "[\<lparr>solidity_file_idx = 0, offset = 10, length_m = 5, lineno = Some 3,
                      solc_mapping = ''10:5:0''\<rparr>]"
       and tok' = "''3:1:2''" and item' = "''3:1:2''" and a' = 3 and b' = 1 and c' = 2
       and post = "[''4:1:0'']"]
  by (simp add: ev ex locals_at_def locals_of_def)

subsection \<open>Extraction of the whole-declaration ranges\<close>

lemma marked_sources_Nil: "marked_sources [] = {}"
  by (simp add: marked_sources_def)

lemma marked_sources_Cons:
  "marked_sources (c # cs) =
     (if marked c then (case src c of None \<Rightarrow> {} | Some s \<Rightarrow> {s}) else {}) \<union> marked_sources cs"
  by (auto simp: marked_sources_def split: option.splits)

lemma collect_sources_ok:
  "list_all well_formed cs \<Longrightarrow> collect_sources acc cs = Inr (acc \<union> marked_sources cs)"
proof (induction cs arbitrary: acc)
  case Nil
  then show ?case by (simp add: marked_sources_Nil)
next
  case (Cons c cs)
  then show ?case
    by (auto simp: marked_sources_Cons well_formed_def marked_def split: option.splits)
qed

lemma collect_sources_fail:
  "\<not> list_all well_formed cs \<Longrightarrow> collect_sources acc cs = Inl KeyError"
proof (induction cs arbitrary: acc)
  case Nil
  then show ?case by simp
next
  case (Cons c cs)
  then show ?case
    by (auto simp: well_formed_def marked_def split: option.splits)
qed

text \<open>
  Claim C6, as the code has it. The extraction has no recovery: it is all or nothing. When
  every declaration of the list has \<^verbatim>\<open>attributes\<close>, and every declaration that carries the
  kind marker has \<^verbatim>\<open>src\<close>, the result is the set of the \<^verbatim>\<open>src\<close> strings of the marked
  declarations (an unmarked declaration needs no \<^verbatim>\<open>src\<close>). Otherwise, and when the AST has no
  \<^verbatim>\<open>children\<close>, the call raises \<open>KeyError\<close> and returns no set.
\<close>

theorem extraction_all_or_nothing:
  "get_full_contract_sources ast =
     (case children ast of
        None \<Rightarrow> Inl KeyError
      | Some cs \<Rightarrow>
          if list_all well_formed cs then Inr (marked_sources cs) else Inl KeyError)"
  using collect_sources_ok [of _ "{}"] collect_sources_fail [of _ "{}"]
  by (simp add: get_full_contract_sources_def split: option.splits)

theorem extraction_all_or_nothing_witness:
  "get_full_contract_sources sound_ast = Inr {''0:5:0''}"
  using extraction_all_or_nothing [of sound_ast]
  by (simp add: sound_ast_def well_formed_def marked_def marked_sources_Cons marked_sources_Nil)

text \<open>
  Claim C6 as stated fails: the second declaration of \<open>example_ast\<close> has no
  \<^verbatim>\<open>attributes\<close>, and the extraction raises instead of returning the range of the first.
\<close>

theorem malformed_declaration_counterexample:
  "get_full_contract_sources example_ast = Inl KeyError \<and>
   get_full_contract_sources example_ast \<noteq> Inr {''0:5:0''}"
  by (simp add: get_full_contract_sources_def example_ast_def)

subsection \<open>The two sequences of mappings\<close>

lemma get_solc_mappings_runtime:
  "get_solc_mappings self srcmap False =
     (self\<lparr>mappings := mappings self @ fst (mappings_loop self start srcmap)\<rparr>,
      snd (mappings_loop self start srcmap))"
  by (simp add: get_solc_mappings_def split: prod.splits)

lemma get_solc_mappings_constructor:
  "get_solc_mappings self srcmap True =
     (self\<lparr>constructor_mappings :=
             constructor_mappings self @ fst (mappings_loop self start srcmap)\<rparr>,
      snd (mappings_loop self start srcmap))"
  by (simp add: get_solc_mappings_def split: prod.splits)

lemma get_source_info_runtime_frame:
  "get_source_info (self\<lparr>constructor_mappings := cm, creation_disassembly := cd\<rparr>) a False =
     get_source_info self a False"
  by (simp add: get_source_info_def cong: sum.case_cong)

lemma get_source_info_constructor_frame:
  "get_source_info (self\<lparr>mappings := rm, disassembly := d\<rparr>) a True =
     get_source_info self a True"
  by (simp add: get_source_info_def cong: sum.case_cong)

text \<open>
  Claim C10. Decoding with \<^verbatim>\<open>constructor=False\<close> appends the new mappings to
  \<^verbatim>\<open>self.mappings\<close> and leaves \<^verbatim>\<open>self.constructor_mappings\<close> as it was, whether the loop ends or
  raises; decoding with \<^verbatim>\<open>constructor=True\<close> does the converse. \<^verbatim>\<open>get_source_info\<close> with
  \<^verbatim>\<open>constructor=False\<close> gives the same result whatever the constructor sequence and the
  creation disassembly hold, in particular after a constructor decoding, and conversely.
  (The two sequences are the two distinct lists that \<^verbatim>\<open>__init__\<close> creates.)
\<close>

theorem runtime_and_constructor_frames:
  "mappings (fst (get_solc_mappings self srcmap False)) =
     mappings self @ fst (mappings_loop self start srcmap) \<and>
   constructor_mappings (fst (get_solc_mappings self srcmap False)) = constructor_mappings self \<and>
   constructor_mappings (fst (get_solc_mappings self srcmap True)) =
     constructor_mappings self @ fst (mappings_loop self start srcmap) \<and>
   mappings (fst (get_solc_mappings self srcmap True)) = mappings self \<and>
   get_source_info (self\<lparr>constructor_mappings := cm, creation_disassembly := cd\<rparr>) a False =
     get_source_info self a False \<and>
   get_source_info (self\<lparr>mappings := rm, disassembly := d\<rparr>) a True =
     get_source_info self a True \<and>
   get_source_info (fst (get_solc_mappings self srcmap True)) a False =
     get_source_info self a False \<and>
   get_source_info (fst (get_solc_mappings self srcmap False)) a True =
     get_source_info self a True"
  by (simp add: get_solc_mappings_runtime get_solc_mappings_constructor get_source_info_def
           cong: sum.case_cong)

subsection \<open>Resolution of an entry of the internal file\<close>

text \<open>
  \<^verbatim>\<open>get_source_info\<close> has no check of the file index: with index \<open>-1\<close> the subscript
  \<^verbatim>\<open>self.solidity_files[-1]\<close> is the last registered file.
\<close>

lemma internal_entry_resolves_to_last_file:
  assumes "get_instruction_index (instruction_list (disassembly self)) a = Inr k"
    and "py_index (mappings self) (int k) = Inr m"
    and "solidity_file_idx m = - 1"
    and "solidity_files self \<noteq> []"
  shows "\<exists>info. get_source_info self a False = Inr info \<and>
           filename_i info = filename (last (solidity_files self))"
proof -
  have "py_index (solidity_files self) (- 1) = Inr (last (solidity_files self))"
    using assms(4) by (cases "solidity_files self" rule: rev_cases) (auto simp: py_index_def nth_append)
  with assms(1-3) show ?thesis
    by (simp add: get_source_info_def)
qed

text \<open>
  Claim C2 says that resolving an entry with file index \<open>-1\<close> fails and never builds a
  location from a registered file. At the runtime entry of \<open>example_contract\<close>, which is
  what the decoder appends for the map \<^verbatim>\<open>"0:2:-1"\<close>, the code returns a location in the
  last registered file, \<^verbatim>\<open>b.sol\<close>, with a snippet of its text.
\<close>

theorem internal_entry_resolved:
  "decode example_contract ''0:2:-1'' = (mappings example_contract, None) \<and>
   get_source_info example_contract 0 False =
     Inr \<lparr>filename_i = ''b.sol'', lineno_i = None, code = ''xy'', solc_mapping_i = ''0:2:-1''\<rparr>"
  by (simp add: ev ex get_source_info_def utf8_seq_len_def byte_in_def)

end
